theory Spec2Isabelle
  imports Complex_Main "HOL-Library.Multiset"
begin

section \<open>Numbers of the numerical code\<close>

text \<open>
  The arrays of \<^verbatim>\<open>dynamo/tools/cell_velocities.py\<close> hold IEEE doubles. They are
  idealised here: a finite entry is an exact real (no rounding, no overflow, no signed
  zero), and the three special values that numpy produces instead of raising (the two
  infinities and NaN) are kept as values of their own, since a division by zero in the
  source continues with them.
\<close>

datatype fl = Fin real | PInf | NInf | NaN

datatype error =
    ValueError
  | IndexError
  | LinAlgError
  | UnboundLocalError string
  | NameError string

fun fneg :: "fl \<Rightarrow> fl" where
  "fneg (Fin a) = Fin (- a)"
| "fneg PInf = NInf"
| "fneg NInf = PInf"
| "fneg NaN = NaN"

fun fadd :: "fl \<Rightarrow> fl \<Rightarrow> fl" where
  "fadd (Fin a) (Fin b) = Fin (a + b)"
| "fadd NaN _ = NaN"
| "fadd _ NaN = NaN"
| "fadd PInf NInf = NaN"
| "fadd NInf PInf = NaN"
| "fadd PInf _ = PInf"
| "fadd _ PInf = PInf"
| "fadd NInf _ = NInf"
| "fadd _ NInf = NInf"

definition fsub :: "fl \<Rightarrow> fl \<Rightarrow> fl" where
  "fsub x y = fadd x (fneg y)"

text \<open>The sign of a product or quotient with an infinite operand; zero counts as \<open>+0\<close>.\<close>

definition signed_inf :: "bool \<Rightarrow> fl" where
  "signed_inf pos = (if pos then PInf else NInf)"

fun fmul :: "fl \<Rightarrow> fl \<Rightarrow> fl" where
  "fmul (Fin a) (Fin b) = Fin (a * b)"
| "fmul NaN _ = NaN"
| "fmul _ NaN = NaN"
| "fmul (Fin a) PInf = (if a = 0 then NaN else signed_inf (0 < a))"
| "fmul (Fin a) NInf = (if a = 0 then NaN else signed_inf (a < 0))"
| "fmul PInf (Fin b) = (if b = 0 then NaN else signed_inf (0 < b))"
| "fmul NInf (Fin b) = (if b = 0 then NaN else signed_inf (b < 0))"
| "fmul PInf PInf = PInf"
| "fmul NInf NInf = PInf"
| "fmul PInf NInf = NInf"
| "fmul NInf PInf = NInf"

fun fdiv :: "fl \<Rightarrow> fl \<Rightarrow> fl" where
  "fdiv (Fin a) (Fin b) =
     (if b \<noteq> 0 then Fin (a / b)
      else if a = 0 then NaN
      else signed_inf (0 < a))"
| "fdiv NaN _ = NaN"
| "fdiv _ NaN = NaN"
| "fdiv (Fin a) _ = Fin 0"
| "fdiv PInf (Fin b) = signed_inf (0 \<le> b)"
| "fdiv NInf (Fin b) = signed_inf (b < 0)"
| "fdiv _ _ = NaN"

fun fabs :: "fl \<Rightarrow> fl" where
  "fabs (Fin a) = Fin \<bar>a\<bar>"
| "fabs PInf = PInf"
| "fabs NInf = PInf"
| "fabs NaN = NaN"

text \<open>\<^verbatim>\<open>np.sign\<close>, \<^verbatim>\<open>np.exp\<close> and the comparisons: every comparison with NaN is false.\<close>

fun fsign :: "fl \<Rightarrow> fl" where
  "fsign (Fin a) = Fin (sgn a)"
| "fsign PInf = Fin 1"
| "fsign NInf = Fin (- 1)"
| "fsign NaN = NaN"

fun fexp :: "fl \<Rightarrow> fl" where
  "fexp (Fin a) = Fin (exp a)"
| "fexp PInf = PInf"
| "fexp NInf = Fin 0"
| "fexp NaN = NaN"

fun flt :: "fl \<Rightarrow> fl \<Rightarrow> bool" where
  "flt (Fin a) (Fin b) = (a < b)"
| "flt NaN _ = False"
| "flt _ NaN = False"
| "flt PInf _ = False"
| "flt _ NInf = False"
| "flt _ _ = True"

definition fgt :: "fl \<Rightarrow> fl \<Rightarrow> bool" where
  "fgt x y = flt y x"

fun fsqrt :: "fl \<Rightarrow> fl" where
  "fsqrt (Fin a) = (if 0 \<le> a then Fin (sqrt a) else NaN)"
| "fsqrt PInf = PInf"
| "fsqrt NInf = NaN"
| "fsqrt NaN = NaN"

fun fclip :: "real \<Rightarrow> real \<Rightarrow> fl \<Rightarrow> fl" where
  \<comment> \<open>\<^verbatim>\<open>np.clip(x, lo, hi)\<close>\<close>
  "fclip lo hi (Fin a) = Fin (min (max a lo) hi)"
| "fclip lo hi PInf = Fin hi"
| "fclip lo hi NInf = Fin lo"
| "fclip lo hi NaN = NaN"

text \<open>The real behind a finite value, and the test for one.\<close>

fun fin_val :: "fl \<Rightarrow> real" where
  "fin_val (Fin a) = a"
| "fin_val _ = 0"

definition is_fin :: "fl \<Rightarrow> bool" where
  "is_fin x = (case x of Fin a \<Rightarrow> True | _ \<Rightarrow> False)"

section \<open>Python built-ins used by the kernels\<close>

text \<open>
  \<^verbatim>\<open>max(seq)\<close> raises ValueError on an empty sequence and otherwise keeps the first
  element until a later one compares greater; \<^verbatim>\<open>sum(seq)\<close> adds from the left,
  starting at \<open>0\<close>.
\<close>

definition py_max :: "fl list \<Rightarrow> error + fl" where
  "py_max xs =
     (case xs of
        [] \<Rightarrow> Inl ValueError
      | x # rest \<Rightarrow> Inr (foldl (\<lambda>m y. if fgt y m then y else m) x rest))"

definition py_sum :: "fl list \<Rightarrow> fl" where
  "py_sum xs = foldl fadd (Fin 0) xs"

text \<open>Indexing a sequence by a non-negative index: out of range raises IndexError.\<close>

definition item :: "'a list \<Rightarrow> nat \<Rightarrow> error + 'a" where
  "item xs i = (if i < length xs then Inr (xs ! i) else Inl IndexError)"

text \<open>Sequencing of computations that may raise.\<close>

definition and_then :: "error + 'a \<Rightarrow> ('a \<Rightarrow> error + 'b) \<Rightarrow> error + 'b" where
  "and_then r f = (case r of Inl e \<Rightarrow> Inl e | Inr x \<Rightarrow> f x)"

fun map_err :: "('a \<Rightarrow> error + 'b) \<Rightarrow> 'a list \<Rightarrow> error + 'b list" where
  "map_err f [] = Inr []"
| "map_err f (x # xs) =
     and_then (f x) (\<lambda>y. and_then (map_err f xs) (\<lambda>ys. Inr (y # ys)))"

section \<open>The empirical correlation kernel\<close>

text \<open>
  \<^verbatim>\<open>_empirical_vec(X_pca, X_embedding, V_mat, indices, neg_cells_trick, xy_grid_nums,
  neighbors)\<close>. The matrices \<open>X_pca\<close> and \<open>V_mat\<close> are lists of rows of finite
  reals, the embedding is a list of points of the plane (the source stacks the norms
  twice, \<^verbatim>\<open>np.hstack((denominator, denominator))\<close>, so it has two columns), and
  \<open>indices\<close> holds for each cell the cell itself followed by its \<open>knn\<close> neighbours.
  \<^verbatim>\<open>np.corrcoef\<close> and \<^verbatim>\<open>velocity_on_grid\<close> are not code of this file: they are
  parameters of the model (\<open>corrcoef x y\<close> stands for \<^verbatim>\<open>np.corrcoef(x, y)[0, 1]\<close>).
\<close>

type_synonym point = "real \<times> real"

definition signed_sqrt :: "real list \<Rightarrow> real list" where
  \<comment> \<open>\<^verbatim>\<open>np.sign(v) * np.sqrt(np.abs(v))\<close>\<close>
  "signed_sqrt v = map (\<lambda>x. sgn x * sqrt \<bar>x\<bar>) v"

definition vsub :: "real list \<Rightarrow> real list \<Rightarrow> real list" where
  "vsub a b = map2 (\<lambda>x y. x - y) a b"

definition i_vals_of ::
  "(real list \<Rightarrow> real list \<Rightarrow> fl) \<Rightarrow> real list list \<Rightarrow> real list list \<Rightarrow>
   nat list \<Rightarrow> nat \<Rightarrow> nat \<Rightarrow> error + fl list" where
  \<comment> \<open>the loop \<^verbatim>\<open>for j in np.arange(1, knn + 1)\<close> of cell \<open>i\<close>, whose row of
      \<open>indices\<close> is \<open>nbrs\<close>\<close>
  "i_vals_of corrcoef X_pca V_mat nbrs knn i =
     and_then (item V_mat i) (\<lambda>velocity.
       let diff_velocity = signed_sqrt velocity in
       map_err (\<lambda>j.
         and_then (item nbrs j) (\<lambda>neighbor_ind_j.
         and_then (item X_pca neighbor_ind_j) (\<lambda>xj.
         and_then (item X_pca i) (\<lambda>xi.
           let diff = vsub xj xi;
               diff_rho = signed_sqrt diff
           in Inr (corrcoef diff_rho diff_velocity))))) [1..<knn + 1])"

definition where_sign :: "fl list \<Rightarrow> real \<Rightarrow> nat list" where
  \<comment> \<open>\<^verbatim>\<open>np.where(np.sign(i_vals) == sig)[0]\<close>\<close>
  "where_sign i_vals sig = filter (\<lambda>p. fsign (i_vals ! p) = Fin sig) [0..<length i_vals]"

definition group_prob :: "fl list \<Rightarrow> nat list \<Rightarrow> error + fl list" where
  \<comment> \<open>\<open>i_prob\<close> of one sign group (lines 387 to 391)\<close>
  "group_prob i_vals cur_ind =
     (let cur_i_vals = map (\<lambda>p. i_vals ! p) cur_ind in
      and_then (py_max (map fabs cur_i_vals)) (\<lambda>sigma.
        let exp_i_vals = map (\<lambda>c. fexp (fdiv (fabs c) sigma)) cur_i_vals;
            denominator = py_sum exp_i_vals
        in Inr (map (\<lambda>e. fdiv e denominator) exp_i_vals)))"

definition plain_prob :: "fl list \<Rightarrow> error + fl list" where
  \<comment> \<open>\<open>i_prob\<close> of the branch without the trick (lines 401 to 404)\<close>
  "plain_prob i_vals =
     and_then (py_max (map fabs i_vals)) (\<lambda>sigma.
       let exp_i_vals = map (\<lambda>c. fexp (fdiv c sigma)) i_vals;
           denominator = py_sum exp_i_vals
       in Inr (map (\<lambda>e. fdiv e denominator) exp_i_vals))"

definition displacements :: "point list \<Rightarrow> nat \<Rightarrow> nat list \<Rightarrow> error + point list" where
  \<comment> \<open>\<^verbatim>\<open>[X_embedding[j, :] - X_embedding[i, :] for j in j_vec]\<close>\<close>
  "displacements X_embedding i j_vec =
     map_err (\<lambda>j.
       and_then (item X_embedding j) (\<lambda>ej.
       and_then (item X_embedding i) (\<lambda>ei.
         Inr (fst ej - fst ei, snd ej - snd ei)))) j_vec"

definition unit_rows :: "point list \<Rightarrow> (fl \<times> fl) list" where
  \<comment> \<open>\<^verbatim>\<open>numerator / np.hstack((denominator, denominator))\<close>, the denominator of a row
      being its Euclidean norm\<close>
  "unit_rows numerator =
     map (\<lambda>(a, b).
       let d = sqrt (a\<^sup>2 + b\<^sup>2)
       in (fdiv (Fin a) (Fin d), fdiv (Fin b) (Fin d))) numerator"

definition dot2 :: "fl list \<Rightarrow> (fl \<times> fl) list \<Rightarrow> fl \<times> fl" where
  \<comment> \<open>\<^verbatim>\<open>w.T.dot(q)\<close> for a column \<open>w\<close> and a two-column matrix \<open>q\<close>\<close>
  "dot2 w q =
     (py_sum (map2 (\<lambda>wj qj. fmul wj (fst qj)) w q),
      py_sum (map2 (\<lambda>wj qj. fmul wj (snd qj)) w q))"

definition scatter :: "fl list \<Rightarrow> nat list \<Rightarrow> fl list \<Rightarrow> fl list" where
  \<comment> \<open>\<^verbatim>\<open>vals[idx] = ys\<close> on the block of the current cell\<close>
  "scatter xs idx ys = fold (\<lambda>(p, y) acc. acc[p := y]) (zip idx ys) xs"

definition trick_step ::
  "point list \<Rightarrow> nat list \<Rightarrow> nat \<Rightarrow> fl list \<Rightarrow> real \<Rightarrow> fl list \<times> fl \<times> fl \<Rightarrow>
   error + (fl list \<times> fl \<times> fl)" where
  \<comment> \<open>one round of \<^verbatim>\<open>for sig in [-1, 1]\<close> on the block of values and the drift of
      cell \<open>i\<close>\<close>
  "trick_step X_embedding nbrs i i_vals sig st =
     (case st of (vals, dx, dy) \<Rightarrow>
      let cur_ind = where_sign i_vals sig in
      if length cur_ind = 0 then Inr st
      else
        and_then (group_prob i_vals cur_ind) (\<lambda>i_prob.
          let vals' = scatter vals cur_ind (map (fmul (Fin sig)) i_prob);
              j_vec = map (\<lambda>p. tl nbrs ! p) cur_ind
          in and_then (displacements X_embedding i j_vec) (\<lambda>disp.
               let numerator = map (\<lambda>(a, b). (sig * a, sig * b)) disp;
                   w = map (\<lambda>p. fsub p (Fin (1 / real (length cur_ind)))) i_prob;
                   c = dot2 w (unit_rows numerator)
               in Inr (vals',
                       fadd dx (fmul (Fin (1 / 2)) (fst c)),
                       fadd dy (fmul (Fin (1 / 2)) (snd c))))))"

definition cell_trick ::
  "point list \<Rightarrow> nat list \<Rightarrow> nat \<Rightarrow> fl list \<Rightarrow> error + (fl list \<times> fl \<times> fl)" where
  "cell_trick X_embedding nbrs i i_vals =
     and_then (trick_step X_embedding nbrs i i_vals (- 1)
                 (replicate (length i_vals) (Fin 0), Fin 0, Fin 0))
       (trick_step X_embedding nbrs i i_vals 1)"

definition cell_plain ::
  "point list \<Rightarrow> nat list \<Rightarrow> nat \<Rightarrow> nat \<Rightarrow> fl list \<Rightarrow> error + (fl list \<times> fl \<times> fl)" where
  "cell_plain X_embedding nbrs knn i i_vals =
     and_then (plain_prob i_vals) (\<lambda>i_prob.
       let j_vec = tl nbrs in
       and_then (displacements X_embedding i j_vec) (\<lambda>numerator.
         let w = map (\<lambda>p. fsub p (Fin (1 / real knn))) i_prob;
             c = dot2 w (unit_rows numerator)
         in Inr (i_prob, fst c, snd c)))"

text \<open>
  The body of \<^verbatim>\<open>for i in range(n)\<close>: the column indices, the values and the drift
  of cell \<open>i\<close>.
\<close>

definition cell_body ::
  "(real list \<Rightarrow> real list \<Rightarrow> fl) \<Rightarrow> real list list \<Rightarrow> point list \<Rightarrow> real list list \<Rightarrow>
   nat list list \<Rightarrow> bool \<Rightarrow> nat \<Rightarrow> nat \<Rightarrow> error + (nat list \<times> fl list \<times> fl \<times> fl)" where
  "cell_body corrcoef X_pca X_embedding V_mat indices neg_cells_trick knn i =
     and_then (item indices i) (\<lambda>nbrs.
     and_then (i_vals_of corrcoef X_pca V_mat nbrs knn i) (\<lambda>i_vals.
     and_then (if neg_cells_trick then cell_trick X_embedding nbrs i i_vals
               else cell_plain X_embedding nbrs knn i i_vals) (\<lambda>(vals, d).
       Inr (take knn (tl nbrs), vals, d))))"

text \<open>
  \<^verbatim>\<open>csr_matrix((vals, (rows, cols)), shape)\<close>: an index outside the shape raises
  ValueError, entries with the same position are added. The matrix is given densely.
\<close>

definition csr_matrix :: "(nat \<times> nat \<times> fl) list \<Rightarrow> nat \<times> nat \<Rightarrow> error + fl list list" where
  "csr_matrix entries shape =
     (if \<forall>(r, c, v) \<in> set entries. r < fst shape \<and> c < snd shape
      then Inr (map (\<lambda>r. map (\<lambda>c.
             py_sum (map (\<lambda>(r', c', v). v)
               (filter (\<lambda>(r', c', v). r' = r \<and> c' = c) entries)))
             [0..<snd shape]) [0..<fst shape])
      else Inl ValueError)"

definition ncols :: "'a list list \<Rightarrow> nat" where
  "ncols m = (case m of [] \<Rightarrow> 0 | r # _ \<Rightarrow> length r)"

definition cell_entries :: "nat \<Rightarrow> nat list \<times> fl list \<times> fl \<times> fl \<Rightarrow> (nat \<times> nat \<times> fl) list" where
  "cell_entries i blk = (case blk of (cols, vals, d) \<Rightarrow> map2 (\<lambda>c v. (i, c, v)) cols vals)"

definition empirical_vec ::
  "(real list \<Rightarrow> real list \<Rightarrow> fl) \<Rightarrow> (point list \<Rightarrow> (fl \<times> fl) list \<Rightarrow> 'g) \<Rightarrow>
   real list list \<Rightarrow> point list \<Rightarrow> real list list \<Rightarrow> nat list list option \<Rightarrow> bool \<Rightarrow>
   nat \<times> nat \<Rightarrow> error + (fl list list \<times> (fl \<times> fl) list \<times> 'g)" where
  "empirical_vec corrcoef velocity_on_grid X_pca X_embedding V_mat indices neg_cells_trick
     neighbors_shape =
     (let n = length X_pca in
      case indices of
        None \<Rightarrow> Inl (UnboundLocalError (if n = 0 then ''vals'' else ''knn''))
      | Some ind \<Rightarrow>
          if ncols ind = 0 \<and> 0 < n then Inl ValueError
          else
            let knn = ncols ind - 1 in
            and_then (map_err (cell_body corrcoef X_pca X_embedding V_mat ind
                                 neg_cells_trick knn) [0..<n]) (\<lambda>blocks.
            and_then (csr_matrix (concat (map2 cell_entries [0..<n] blocks))
                        neighbors_shape) (\<lambda>T.
              if n = 0 then Inl (UnboundLocalError ''X_grid'')
              else
                let delta_X = map (\<lambda>(cols, vals, d). d) blocks
                in Inr (T, delta_X, velocity_on_grid X_embedding delta_X))))"

text \<open>
  The instance of the parameter \<open>corrcoef\<close> used on concrete data. It follows the
  documentation of \<^verbatim>\<open>np.corrcoef\<close> and \<^verbatim>\<open>np.cov\<close>: the deviations from the means,
  their products scaled by \<open>1 / (N - 1)\<close>, the covariance divided by both standard
  deviations, the result clipped to \<open>[-1, 1]\<close>. A constant vector gives \<open>0 / 0\<close>, NaN.
\<close>

definition pearson :: "real list \<Rightarrow> real list \<Rightarrow> fl" where
  "pearson x y =
     (if length x = 0 then NaN
      else
        let N = real (length x);
            mx = sum_list x / N;
            my = sum_list y / N;
            dx = map (\<lambda>a. a - mx) x;
            dy = map (\<lambda>b. b - my) y;
            fact = fdiv (Fin 1) (Fin (N - 1));
            cxy = fmul (Fin (sum_list (map2 (\<lambda>a b. a * b) dx dy))) fact;
            cxx = fmul (Fin (sum_list (map (\<lambda>a. a * a) dx))) fact;
            cyy = fmul (Fin (sum_list (map (\<lambda>b. b * b) dy))) fact
        in fclip (- 1) 1 (fdiv (fdiv cxy (fsqrt cxx)) (fsqrt cyy)))"

section \<open>The diffusion module\<close>

text \<open>
  \<^verbatim>\<open>diffusion(M, P0=None, steps=None, backward=False)\<close> on a \<^verbatim>\<open>numpy.ndarray\<close>, as
  its docstring has it: a list of rows of finite reals. The result is one-dimensional
  on the power-iteration path and two-dimensional on the eigenvector path (a boolean
  mask selects columns, \<^verbatim>\<open>eigenvector[:, eigenvalue_1_ind]\<close>).
  \<^verbatim>\<open>scipy.linalg.eig(M, left=True, right=False)\<close> is a parameter \<open>eig\<close>: it returns the
  eigenvalues and the matrix whose columns are the left eigenvectors; it raises
  ValueError on a matrix that is not square or holds a non-finite entry. The exponent
  \<open>steps\<close> is a natural number (a negative one would invert the matrix).
\<close>

datatype ndarray = Arr1 "fl list" | Arr2 "fl list list"

definition is_square :: "'a list list \<Rightarrow> bool" where
  "is_square M = list_all (\<lambda>row. length row = length M) M"

definition col :: "'a list list \<Rightarrow> nat \<Rightarrow> 'a list" where
  "col M j = map (\<lambda>row. row ! j) M"

definition transpose_nd :: "'a list list \<Rightarrow> 'a list list" where
  \<comment> \<open>\<^verbatim>\<open>M.T\<close>\<close>
  "transpose_nd M = map (col M) [0..<ncols M]"

definition sum_axis1 :: "fl list list \<Rightarrow> fl list" where
  \<comment> \<open>\<^verbatim>\<open>M.sum(1)\<close>: the one-dimensional array of the row sums\<close>
  "sum_axis1 M = map py_sum M"

definition div_broadcast :: "fl list list \<Rightarrow> fl list \<Rightarrow> fl list list" where
  \<comment> \<open>\<^verbatim>\<open>M / s\<close> for a one-dimensional \<open>s\<close>: numpy aligns \<open>s\<close> with the last axis, so
      the entry in column \<open>j\<close> is divided by \<open>s[j]\<close>\<close>
  "div_broadcast M s = map (\<lambda>row. map2 fdiv row s) M"

definition rtol :: real where "rtol = 1 / 10 ^ 5"
definition atol :: real where "atol = 1 / 10 ^ 8"

definition isclose_c :: "complex \<Rightarrow> complex \<Rightarrow> bool" where
  \<comment> \<open>\<^verbatim>\<open>np.isclose(a, b)\<close> with the default tolerances\<close>
  "isclose_c a b = (cmod (a - b) \<le> atol + rtol * cmod b)"

definition isclose :: "fl \<Rightarrow> real \<Rightarrow> bool" where
  "isclose a b = (case a of Fin x \<Rightarrow> \<bar>x - b\<bar> \<le> atol + rtol * \<bar>b\<bar> | _ \<Rightarrow> False)"

definition mask_select :: "bool list \<Rightarrow> 'a list \<Rightarrow> 'a list" where
  "mask_select keep row = map snd (filter fst (zip keep row))"

definition stationary_from_eig :: "complex list \<Rightarrow> complex list list \<Rightarrow> error + fl list list" where
  \<comment> \<open>lines 316 to 323, from the eigenvalues and the left eigenvectors\<close>
  "stationary_from_eig eigenvalue eigenvector =
     (let ev = map (map Re) eigenvector;
          eigenvalue_1_ind = map (\<lambda>w. isclose_c w 1) eigenvalue
      in if \<not> list_all (\<lambda>row. length row = length eigenvalue_1_ind) ev then Inl IndexError
         else
           let sel = map (mask_select eigenvalue_1_ind) ev;
               total = Fin (sum_list (concat sel));
               mu = map (map (\<lambda>x. fdiv (Fin x) total)) sel
           in Inr (map (map (\<lambda>m. if isclose m 0 \<and> flt m (Fin 0) then Fin 0 else m)) mu))"

definition dot_vm :: "fl list \<Rightarrow> fl list list \<Rightarrow> error + fl list" where
  \<comment> \<open>\<^verbatim>\<open>p.dot(B)\<close> of a vector and a matrix\<close>
  "dot_vm p B =
     (if length p \<noteq> length B then Inl ValueError
      else Inr (map (\<lambda>j. py_sum (map2 fmul p (col B j))) [0..<ncols B]))"

definition dot_mm :: "fl list list \<Rightarrow> fl list list \<Rightarrow> error + fl list list" where
  \<comment> \<open>\<^verbatim>\<open>A.dot(B)\<close> of two matrices\<close>
  "dot_mm A B = map_err (\<lambda>row. dot_vm row B) A"

definition identity :: "nat \<Rightarrow> fl list list" where
  "identity n = map (\<lambda>i. map (\<lambda>j. Fin (if i = j then 1 else 0)) [0..<n]) [0..<n]"

fun matrix_power :: "fl list list \<Rightarrow> nat \<Rightarrow> error + fl list list" where
  \<comment> \<open>\<^verbatim>\<open>np.linalg.matrix_power(M, k)\<close> for \<open>k \<ge> 0\<close>: LinAlgError unless \<open>M\<close> is square\<close>
  "matrix_power M 0 = (if is_square M then Inr (identity (length M)) else Inl LinAlgError)"
| "matrix_power M (Suc k) = and_then (matrix_power M k) (dot_mm M)"

definition nanmean0 :: "fl list list \<Rightarrow> fl list" where
  \<comment> \<open>\<^verbatim>\<open>np.nanmean(A, 0)\<close>: the mean of every column over its entries other than NaN\<close>
  "nanmean0 A =
     map (\<lambda>j. let good = filter (\<lambda>x. x \<noteq> NaN) (col A j)
               in fdiv (py_sum good) (Fin (real (length good)))) [0..<ncols A]"

definition diffusion ::
  "(real list list \<Rightarrow> complex list \<times> complex list list) \<Rightarrow> real list list \<Rightarrow>
   real list option \<Rightarrow> nat option \<Rightarrow> bool \<Rightarrow> error + ndarray" where
  "diffusion eig M P0 steps backward =
     (let M0 = map (map Fin) M in
      and_then
        (if backward then
           (if is_square M0
            then let Mt = transpose_nd M0 in Inr (div_broadcast Mt (sum_axis1 Mt))
            else Inl ValueError)
         else Inr M0) (\<lambda>M1.
      case steps of
        None \<Rightarrow>
          if is_square M1 \<and> list_all (list_all is_fin) M1
          then
            (case eig (map (map fin_val) M1) of (eigenvalue, eigenvector) \<Rightarrow>
               and_then (stationary_from_eig eigenvalue eigenvector) (\<lambda>mu. Inr (Arr2 mu)))
          else Inl ValueError
      | Some k \<Rightarrow>
          and_then (matrix_power M1 k) (\<lambda>Mk.
            case P0 of
              None \<Rightarrow> and_then (dot_mm M1 Mk) (\<lambda>A. Inr (Arr1 (nanmean0 A)))
            | Some p \<Rightarrow> and_then (dot_vm (map Fin p) Mk) (\<lambda>mu. Inr (Arr1 mu)))))"

fun reciprocal :: "ndarray \<Rightarrow> ndarray" where
  \<comment> \<open>\<^verbatim>\<open>1 / steady_state\<close>\<close>
  "reciprocal (Arr1 v) = Arr1 (map (fdiv (Fin 1)) v)"
| "reciprocal (Arr2 m) = Arr2 (map (map (fdiv (Fin 1))) m)"

definition expected_return_time ::
  "(real list list \<Rightarrow> complex list \<times> complex list list) \<Rightarrow> real list list \<Rightarrow> bool \<Rightarrow>
   error + ndarray" where
  "expected_return_time eig M backward =
     and_then (diffusion eig M None None backward) (\<lambda>steady_state.
       Inr (reciprocal steady_state))"

text \<open>
  What \<^verbatim>\<open>scipy.linalg.eig\<close> promises for \<open>left=True\<close>: column \<open>k\<close> of the second
  result is a non-zero vector \<open>v\<close> with \<open>v\<^sup>H M = w[k] v\<^sup>H\<close>. The idealised model asks
  for this exactly.
\<close>

definition left_eigpair :: "real list list \<Rightarrow> complex \<Rightarrow> complex list \<Rightarrow> bool" where
  "left_eigpair M lam v =
     (length v = length M \<and> list_ex (\<lambda>x. x \<noteq> 0) v \<and>
      map (\<lambda>j. sum_list (map2 (\<lambda>x row. cnj x * complex_of_real (row ! j)) v M))
        [0..<length M] = map (\<lambda>x. lam * cnj x) v)"

definition eig_exact ::
  "(real list list \<Rightarrow> complex list \<times> complex list list) \<Rightarrow> real list list \<Rightarrow> bool" where
  "eig_exact eig M =
     (case eig M of (w, vl) \<Rightarrow>
        length w = length M \<and> length vl = length M \<and>
        list_all (\<lambda>row. length row = length M) vl \<and>
        list_all (\<lambda>k. left_eigpair M (w ! k) (col vl k)) [0..<length M])"

text \<open>
  The eigen-decompositions of the matrices of the examples below (eigenvectors up to
  their scaling, which the division by their sum cancels).
\<close>

definition eig_example :: "real list list \<Rightarrow> complex list \<times> complex list list" where
  "eig_example M =
     (if M = [[0, 1], [1, 0]] then ([1, - 1], [[1, 1], [1, - 1]])
      else if M = [[1, 0], [0, 1]] then ([1, 1], [[1, 0], [0, 1]])
      else if M = [[2, 0], [0, 3]] then ([2, 3], [[1, 0], [0, 1]])
      else if M = [[1 / 3, 2], [1 / 3, 0]] then ([1, - (2 / 3)], [[1, 1], [2, - 3]])
      else if M = [[1 / 3, 2 / 3], [1, 0]] then ([1, - (2 / 3)], [[3, 1], [2, - 1]])
      else ([], []))"

text \<open>Row-stochastic matrices and their stationary vectors, over the reals.\<close>

definition row_stochastic :: "real list list \<Rightarrow> bool" where
  "row_stochastic P =
     (is_square P \<and> list_all (\<lambda>row. list_all (\<lambda>x. 0 \<le> x) row \<and> sum_list row = 1) P)"

definition vec_mat :: "real list \<Rightarrow> real list list \<Rightarrow> real list" where
  "vec_mat u P = map (\<lambda>j. sum_list (map2 (\<lambda>x y. x * y) u (col P j))) [0..<length P]"

definition stationary :: "real list list \<Rightarrow> real list \<Rightarrow> bool" where
  "stationary P u = (length u = length P \<and> vec_mat u P = u)"

section \<open>The random control\<close>

text \<open>
  \<^verbatim>\<open>numba_random_seed(seed)\<close> and \<^verbatim>\<open>permute_rows_nsign(A)\<close> work on the global state of
  the random generator, which the model passes explicitly. The generator itself is not
  code of this file: \<^verbatim>\<open>np.random.seed\<close> gives the state that a seed determines,
  \<^verbatim>\<open>np.random.shuffle\<close> on a sequence of length \<open>n\<close> gives the positions from which
  the shuffled sequence is read, \<^verbatim>\<open>np.random.choice(plmi, size=n)\<close> gives \<open>n\<close> picks of
  the first (\<open>True\<close>, \<open>+1\<close>) or the second (\<open>False\<close>, \<open>-1\<close>) entry of \<open>plmi\<close>;
  both return the next state.
\<close>

record 'r rng_ops =
  rng_seed :: "int \<Rightarrow> 'r"
  rng_shuffle :: "'r \<Rightarrow> nat \<Rightarrow> nat list \<times> 'r"
  rng_choice :: "'r \<Rightarrow> nat \<Rightarrow> bool list \<times> 'r"

definition rng_ok :: "'r rng_ops \<Rightarrow> bool" where
  \<comment> \<open>what numpy promises: a shuffle is a permutation, a choice has the size asked for\<close>
  "rng_ok ops =
     ((\<forall>g n. mset (fst (rng_shuffle ops g n)) = mset [0..<n]) \<and>
      (\<forall>g n. length (fst (rng_choice ops g n)) = n))"

definition numba_random_seed :: "'r rng_ops \<Rightarrow> int \<Rightarrow> 'r \<Rightarrow> 'r" where
  "numba_random_seed ops seed g = rng_seed ops seed"

definition plmi :: "bool \<Rightarrow> real" where
  "plmi pick = (if pick then 1 else - 1)"

fun permute_rows :: "'r rng_ops \<Rightarrow> nat \<Rightarrow> real list list \<Rightarrow> 'r \<Rightarrow> real list list \<times> 'r" where
  \<comment> \<open>\<^verbatim>\<open>for i in range(A.shape[0])\<close>, with \<open>c\<close> for \<^verbatim>\<open>A.shape[1]\<close>\<close>
  "permute_rows ops c [] g = ([], g)"
| "permute_rows ops c (row # rest) g =
     (case rng_shuffle ops g (length row) of (perm, g1) \<Rightarrow>
      case rng_choice ops g1 c of (picks, g2) \<Rightarrow>
      case permute_rows ops c rest g2 of (rest', g3) \<Rightarrow>
        (map2 (\<lambda>x pick. x * plmi pick) (map (\<lambda>p. row ! p) perm) picks # rest', g3))"

definition permute_rows_nsign :: "'r rng_ops \<Rightarrow> real list list \<Rightarrow> 'r \<Rightarrow> real list list \<times> 'r" where
  "permute_rows_nsign ops A g = permute_rows ops (ncols A) A g"

text \<open>A small deterministic generator for the examples.\<close>

definition rng_example :: "nat rng_ops" where
  "rng_example =
     \<lparr>rng_seed = (\<lambda>seed. nat \<bar>seed\<bar>),
      rng_shuffle = (\<lambda>g n. (rev [0..<n], Suc g)),
      rng_choice = (\<lambda>g n. (map (\<lambda>j. even (g + j)) [0..<n], Suc g))\<rparr>"

section \<open>The orchestrator\<close>

text \<open>
  \<^verbatim>\<open>cell_velocities\<close>. The container \<open>adata\<close> is modelled by the two namespaces the
  function writes its results to. What the function takes from other modules is a
  parameter: the resolution of the layer keys (lines 72 to 74), the preparation of the
  inputs (lines 79 to 105: gene selection, embedding, finite columns), which may itself
  write to the container, the whole analytical branch (\<^verbatim>\<open>KernelMarkovChain\<close>, lines 109
  to 163) and the transformation of the \<^verbatim>\<open>transform\<close> branch. In the prepared inputs
  \<open>inp_graph\<close> holds \<open>indices\<close> and the shape of \<open>neighbors\<close>; it is \<open>None\<close> when the
  two names were never bound (line 79).
\<close>

datatype 'g item = Matrix "fl list list" | Vectors "(fl \<times> fl) list" | GridDict 'g | Other string

record 'g adata =
  uns :: "string \<rightharpoonup> 'g item"
  obsm :: "string \<rightharpoonup> 'g item"

record inputs =
  inp_X :: "real list list"
  inp_V_mat :: "real list list"
  inp_X_embedding :: "point list"
  inp_graph :: "(nat list list \<times> nat \<times> nat) option"

type_synonym 'g kernel_out = "fl list list \<times> (fl \<times> fl) list \<times> 'g"

record ('g, 'r) collaborators =
  co_corrcoef :: "real list \<Rightarrow> real list \<Rightarrow> fl"
  co_velocity_on_grid :: "point list \<Rightarrow> (fl \<times> fl) list \<Rightarrow> 'g"
  co_rng :: "'r rng_ops"
  co_resolve_keys :: "'g adata \<Rightarrow> error option"
  co_prepare :: "'g adata \<Rightarrow> 'g adata \<times> (error + inputs)"
  co_analytical ::
    "'g adata \<Rightarrow> inputs \<Rightarrow> bool \<Rightarrow> 'r \<Rightarrow>
     ('g adata \<times> 'r) \<times> (error + ('g kernel_out \<times> 'g kernel_out option))"
  co_transform :: "inputs \<Rightarrow> error + ((fl \<times> fl) list \<times> 'g)"

definition store_out :: "string \<Rightarrow> string \<Rightarrow> 'g kernel_out \<Rightarrow> 'g adata \<Rightarrow> 'g adata" where
  \<comment> \<open>lines 176 to 178, and with the suffix \<open>_rnd\<close> lines 181 to 183\<close>
  "store_out basis suffix out adata =
     (case out of (T, delta_X, grid) \<Rightarrow>
        adata\<lparr>uns := (uns adata)
                 (''transition_matrix'' @ suffix \<mapsto> Matrix T,
                  ''grid_velocity_'' @ basis @ suffix \<mapsto> GridDict grid),
              obsm := (obsm adata)(''velocity_'' @ basis @ suffix \<mapsto> Vectors delta_X)\<rparr>)"

definition store_results ::
  "string \<Rightarrow> 'g kernel_out \<Rightarrow> 'g kernel_out option \<Rightarrow> 'g adata \<Rightarrow> 'g adata" where
  "store_results basis out rnd adata =
     (case rnd of
        None \<Rightarrow> store_out basis [] out adata
      | Some out_rnd \<Rightarrow> store_out basis ''_rnd'' out_rnd (store_out basis [] out adata))"

text \<open>
  The result is the container as the call leaves it, the state of the generator, and
  the exception the call ends with, if any.
\<close>

definition cell_velocities ::
  "('g, 'r) collaborators \<Rightarrow> 'g adata \<Rightarrow> 'r \<Rightarrow> string \<Rightarrow> string \<Rightarrow> bool \<Rightarrow> bool \<Rightarrow> int \<Rightarrow>
   'g adata \<times> 'r \<times> error option" where
  "cell_velocities co adata g basis method neg_cells_trick calc_rnd_vel random_seed =
     (case co_resolve_keys co adata of
        Some e \<Rightarrow> (adata, g, Some e)
      | None \<Rightarrow>
          let g1 = (if calc_rnd_vel then numba_random_seed (co_rng co) random_seed g else g) in
          case co_prepare co adata of
            (adata1, Inl e) \<Rightarrow> (adata1, g1, Some e)
          | (adata1, Inr inp) \<Rightarrow>
              if method = ''analytical'' then
                (case co_analytical co adata1 inp calc_rnd_vel g1 of
                   ((adata2, g2), Inl e) \<Rightarrow> (adata2, g2, Some e)
                 | ((adata2, g2), Inr (out, rnd)) \<Rightarrow>
                     (store_results basis out rnd adata2, g2, None))
              else if method = ''empirical'' then
                (case inp_graph inp of
                   None \<Rightarrow> (adata1, g1, Some (UnboundLocalError ''indices''))
                 | Some (ind, neighbors_shape) \<Rightarrow>
                     (case empirical_vec (co_corrcoef co) (co_velocity_on_grid co) (inp_X inp)
                             (inp_X_embedding inp) (inp_V_mat inp) (Some ind) neg_cells_trick
                             neighbors_shape of
                        Inl e \<Rightarrow> (adata1, g1, Some e)
                      | Inr out \<Rightarrow>
                          if calc_rnd_vel then
                            (case permute_rows_nsign (co_rng co) (inp_V_mat inp) g1 of
                               (V_rnd, g2) \<Rightarrow>
                                 (case empirical_vec (co_corrcoef co) (co_velocity_on_grid co)
                                         (inp_X inp) (inp_X_embedding inp) V_rnd (Some ind)
                                         neg_cells_trick neighbors_shape of
                                    Inl e \<Rightarrow> (adata1, g2, Some e)
                                  | Inr out_rnd \<Rightarrow>
                                      (store_results basis out (Some out_rnd) adata1, g2, None)))
                          else (store_results basis out None adata1, g1, None)))
              else if method = ''transform'' then
                (case co_transform co inp of
                   Inl e \<Rightarrow> (adata1, g1, Some e)
                 | Inr out \<Rightarrow> (adata1, g1, Some (UnboundLocalError ''T'')))
              else (adata1, g1, Some (UnboundLocalError ''T'')))"

text \<open>
  Collaborators for the examples: the keys resolve, the preparation records the
  embedding it fetched and hands over two cells that are each other's neighbour, the
  analytical kernel is absent, and the name \<^verbatim>\<open>umap_trans\<close> of the \<^verbatim>\<open>transform\<close> branch
  is not defined.
\<close>

definition inputs_example :: inputs where
  "inputs_example =
     \<lparr>inp_X = [[0, 0], [1, 0]], inp_V_mat = [[- 1, 0], [1, 0]],
      inp_X_embedding = [(0, 0), (1, 0)],
      inp_graph = Some ([[0, 1], [1, 0]], (2, 2))\<rparr>"

definition co_example :: "(unit, nat) collaborators" where
  "co_example =
     \<lparr>co_corrcoef = pearson,
      co_velocity_on_grid = (\<lambda>X_embedding delta_X. ()),
      co_rng = rng_example,
      co_resolve_keys = (\<lambda>adata. None),
      co_prepare = (\<lambda>adata.
        (adata\<lparr>obsm := (obsm adata)(''X_umap'' \<mapsto> Other ''embedding'')\<rparr>, Inr inputs_example)),
      co_analytical = (\<lambda>adata inp calc_rnd_vel g.
        ((adata, g), Inl (NameError ''KernelMarkovChain''))),
      co_transform = (\<lambda>inp. Inl (NameError ''umap_trans''))\<rparr>"

definition adata_example :: "unit adata" where
  "adata_example = \<lparr>uns = Map.empty, obsm = Map.empty\<rparr>"

section \<open>Verified properties\<close>

subsection \<open>Arithmetic on finite values\<close>

lemma foldl_fadd_Fin: "foldl fadd (Fin a) (map Fin xs) = Fin (a + sum_list xs)"
  by (induction xs arbitrary: a) (simp_all add: add.assoc)

lemma py_sum_Fin: "py_sum (map Fin xs) = Fin (sum_list xs)"
  by (simp add: py_sum_def foldl_fadd_Fin)






lemma sum_list_div_real: "sum_list (map (\<lambda>e. e / s) es) = sum_list es / (s::real)"
  by (induction es) (simp_all add: add_divide_distrib)

lemma normalised_sum:
  assumes "s \<noteq> 0"
  shows "py_sum (map (\<lambda>e. fdiv e (Fin s)) (map Fin es)) = Fin (sum_list es / s)"
proof -
  have "map (\<lambda>e. fdiv e (Fin s)) (map Fin es) = map Fin (map (\<lambda>e. e / s) es)"
    using assms by simp
  then show ?thesis
    by (simp only: py_sum_Fin sum_list_div_real)
qed

subsection \<open>Softmax groups of the negative-cells trick\<close>






subsection \<open>All correlations positive: both branches of the kernel\<close>

lemma fmul_one: "fmul (Fin 1) x = x"
  by (cases x) (simp_all add: signed_inf_def)

lemma fadd_zero: "fadd (Fin 0) x = x"
  by (cases x) simp_all

lemma map_err_length: "map_err f xs = Inr ys \<Longrightarrow> length ys = length xs"
proof (induction xs arbitrary: ys)
  case Nil then show ?case by simp
next
  case (Cons x xs)
  then show ?case
    by (auto simp: and_then_def split: sum.splits)
qed

lemma i_vals_of_length:
  "i_vals_of corrcoef X_pca V_mat nbrs knn i = Inr cs \<Longrightarrow> length cs = knn"
  by (auto simp: i_vals_of_def and_then_def Let_def split: sum.splits dest: map_err_length)

lemma scatter_block:
  "k + length ys \<le> length xs \<Longrightarrow>
   fold (\<lambda>(p, y) acc. acc[p := y]) (zip [k..<k + length ys] ys) xs =
     take k xs @ ys @ drop (k + length ys) xs"
proof (induction ys arbitrary: k xs)
  case Nil then show ?case by simp
next
  case (Cons y ys)
  have up: "[k..<k + length (y # ys)] = k # [Suc k..<Suc k + length ys]"
    by (simp add: upt_rec)
  have "fold (\<lambda>(p, y) acc. acc[p := y]) (zip [k..<k + length (y # ys)] (y # ys)) xs =
        fold (\<lambda>(p, y) acc. acc[p := y]) (zip [Suc k..<Suc k + length ys] ys) (xs[k := y])"
    unfolding up by simp
  also have "\<dots> = take (Suc k) (xs[k := y]) @ ys @ drop (Suc k + length ys) (xs[k := y])"
    using Cons.prems by (intro Cons.IH) simp
  also have "\<dots> = take k xs @ (y # ys) @ drop (k + length (y # ys)) xs"
    using Cons.prems by (simp add: take_Suc_conv_app_nth)
  finally show ?case .
qed

lemma scatter_all: "length ys = length xs \<Longrightarrow> scatter xs [0..<length xs] ys = ys"
  using scatter_block[of 0 ys xs] by (simp add: scatter_def)

lemma pos_sign:
  assumes "\<forall>c \<in> set cs. \<exists>r. c = Fin r \<and> 0 < r" and "p < length cs"
  shows "fsign (cs ! p) = Fin 1"
proof -
  from assms obtain r where "cs ! p = Fin r" "0 < r" using nth_mem by blast
  then show ?thesis by simp
qed

lemma where_sign_neg_none:
  assumes "\<forall>c \<in> set cs. \<exists>r. c = Fin r \<and> 0 < r"
  shows "where_sign cs (- 1) = []"
  using pos_sign[OF assms] by (simp add: where_sign_def filter_empty_conv)

lemma where_sign_pos_all:
  assumes "\<forall>c \<in> set cs. \<exists>r. c = Fin r \<and> 0 < r"
  shows "where_sign cs 1 = [0..<length cs]"
proof -
  have "\<forall>p \<in> set [0..<length cs]. fsign (cs ! p) = Fin 1"
    using pos_sign[OF assms] by simp
  then show ?thesis unfolding where_sign_def by (simp only: filter_True)
qed

lemma group_prob_all_pos:
  assumes "\<forall>c \<in> set cs. \<exists>r. c = Fin r \<and> 0 < r"
  shows "group_prob cs [0..<length cs] = plain_prob cs"
proof -
  have ab: "fabs c = c" if "c \<in> set cs" for c using assms that by fastforce
  have m1: "map fabs cs = cs" using ab by (simp add: map_idI)
  have m2: "map (\<lambda>c. fexp (fdiv (fabs c) sigma)) cs = map (\<lambda>c. fexp (fdiv c sigma)) cs" for sigma
    using ab by simp
  show ?thesis
    by (simp only: group_prob_def plain_prob_def map_nth m1 m2 Let_def)
qed

lemma plain_prob_length: "plain_prob cs = Inr ps \<Longrightarrow> length ps = length cs"
  by (auto simp: plain_prob_def and_then_def Let_def split: sum.splits)

lemma cell_trick_all_pos:
  assumes pos: "\<forall>c \<in> set cs. \<exists>r. c = Fin r \<and> 0 < r"
      and len: "length nbrs = Suc (length cs)"
      and ne: "cs \<noteq> []"
  shows "cell_trick X_embedding nbrs i cs =
         map_sum id (\<lambda>(vals, dx, dy). (vals, fmul (Fin (1 / 2)) dx, fmul (Fin (1 / 2)) dy))
           (cell_plain X_embedding nbrs (length cs) i cs)"
proof -
  have jv: "map (\<lambda>p. tl nbrs ! p) [0..<length cs] = tl nbrs"
    using len map_nth[of "tl nbrs"] by simp
  have first: "trick_step X_embedding nbrs i cs (- 1) st = Inr st" for st
    by (simp add: trick_step_def where_sign_neg_none[OF pos] split: prod.splits)
  have ct: "cell_trick X_embedding nbrs i cs =
            trick_step X_embedding nbrs i cs 1 (replicate (length cs) (Fin 0), Fin 0, Fin 0)"
    by (simp add: cell_trick_def first and_then_def)
  show ?thesis
  proof (cases "plain_prob cs")
    case (Inl e)
    then show ?thesis
      using ne by (simp add: ct trick_step_def where_sign_pos_all[OF pos]
          group_prob_all_pos[OF pos] cell_plain_def and_then_def)
  next
    case (Inr i_prob)
    have lp: "length i_prob = length cs" using Inr by (rule plain_prob_length)
    have m1: "map (fmul (Fin 1)) i_prob = i_prob"
      by (simp add: fmul_one map_idI)
    have sc: "scatter (replicate (length cs) (Fin 0)) [0..<length cs] (map (fmul (Fin 1)) i_prob) = i_prob"
      using scatter_all[of i_prob "replicate (length cs) (Fin 0)"] lp
      by (simp add: m1)
    show ?thesis
    proof (cases "displacements X_embedding i (tl nbrs)")
      case (Inl e)
      then show ?thesis
        using ne Inr by (simp add: ct trick_step_def where_sign_pos_all[OF pos]
          group_prob_all_pos[OF pos] cell_plain_def and_then_def jv Let_def)
    next
      case (Inr disp)
      have idm: "map (\<lambda>(a, b). (1 * a, 1 * b)) disp = disp"
        by (simp add: map_idI split: prod.splits)
      show ?thesis
        using ne \<open>plain_prob cs = Inr i_prob\<close> Inr
        by (simp add: ct trick_step_def where_sign_pos_all[OF pos]
          group_prob_all_pos[OF pos] cell_plain_def and_then_def jv Let_def sc fadd_zero
          split: prod.splits)
    qed
  qed
qed

lemma sqrt_twice: "c * sqrt x * sqrt x = c * \<bar>x\<bar>"
  by (simp add: mult.assoc)

lemma pearson_example_one: "pearson [1, 0, 0] [1, 0, 0] = Fin 1"
  by (simp add: pearson_def Let_def sqrt_twice)

lemma pearson_example_half: "pearson [1, 1, 0] [1, 0, 0] = Fin (1 / 2)"
  by (simp add: pearson_def Let_def sqrt_twice)

lemma i_vals_example: "i_vals_of pearson [[0, 0, 0], [1, 0, 0], [1, 1, 0]]
              [[1, 0, 0], [0, 0, 0], [0, 0, 0]] [0, 1, 2] 2 0 = Inr [Fin 1, Fin (1 / 2)]"
  by (simp add: i_vals_of_def item_def and_then_def upt_rec signed_sqrt_def vsub_def pearson_example_one pearson_example_half)

text \<open>
  C10. For a cell with at least one neighbour, all of whose correlations are finite and
  strictly positive, the body of the loop with \<^verbatim>\<open>neg_cells_trick=True\<close> produces the
  same column indices and the same values of the transition-matrix row as the body with
  \<^verbatim>\<open>neg_cells_trick=False\<close>, and each component of its drift \<^verbatim>\<open>delta_X[i]\<close> is
  \<open>1 / 2\<close> times the component computed without the trick; where the body without
  the trick raises (an index outside the embedding), the body with the trick raises the
  same error.
\<close>

theorem trick_halves_drift_when_all_positive:
  assumes nb: "i < length indices" "length (indices ! i) = Suc knn" "0 < knn"
      and iv: "i_vals_of corrcoef X_pca V_mat (indices ! i) knn i = Inr cs"
      and positive: "\<forall>c \<in> set cs. is_fin c \<and> 0 < fin_val c"
  shows "cell_body corrcoef X_pca X_embedding V_mat indices True knn i =
         map_sum id (\<lambda>(cols, vals, dx, dy).
                       (cols, vals, fmul (Fin (1 / 2)) dx, fmul (Fin (1 / 2)) dy))
           (cell_body corrcoef X_pca X_embedding V_mat indices False knn i)"
proof -
  have pos: "\<forall>c \<in> set cs. \<exists>r. c = Fin r \<and> 0 < r"
  proof
    fix c assume "c \<in> set cs"
    with positive have "is_fin c" "0 < fin_val c" by auto
    then show "\<exists>r. c = Fin r \<and> 0 < r" by (cases c) (simp_all add: is_fin_def)
  qed
  have lc: "length cs = knn" using iv by (rule i_vals_of_length)
  then have ne: "cs \<noteq> []" using nb(3) by auto
  have len: "length (indices ! i) = Suc (length cs)" using nb(2) lc by simp
  have ct: "cell_trick X_embedding (indices ! i) i cs =
         map_sum id (\<lambda>(vals, dx, dy). (vals, fmul (Fin (1 / 2)) dx, fmul (Fin (1 / 2)) dy))
           (cell_plain X_embedding (indices ! i) knn i cs)"
    using cell_trick_all_pos[OF pos len ne] lc by simp
  show ?thesis
    using nb(1)
    by (cases "cell_plain X_embedding (indices ! i) knn i cs")
       (simp_all add: cell_body_def item_def and_then_def iv ct split: prod.splits)
qed

theorem trick_halves_drift_when_all_positive_witness:
  "cell_body pearson [[0, 0, 0], [1, 0, 0], [1, 1, 0]] [(0, 0), (1, 0), (0, 1)]
     [[1, 0, 0], [0, 0, 0], [0, 0, 0]] [[0, 1, 2], [1, 0, 2], [2, 0, 1]] True 2 0 =
   map_sum id (\<lambda>(cols, vals, dx, dy).
                 (cols, vals, fmul (Fin (1 / 2)) dx, fmul (Fin (1 / 2)) dy))
     (cell_body pearson [[0, 0, 0], [1, 0, 0], [1, 1, 0]] [(0, 0), (1, 0), (0, 1)]
        [[1, 0, 0], [0, 0, 0], [0, 0, 0]] [[0, 1, 2], [1, 0, 2], [2, 0, 1]] False 2 0)"
proof -
  have pos: "\<forall>c \<in> set [Fin 1, Fin (1 / 2)]. is_fin c \<and> 0 < fin_val c"
    by (simp add: is_fin_def)
  have iv: "i_vals_of pearson [[0, 0, 0], [1, 0, 0], [1, 1, 0]]
              [[1, 0, 0], [0, 0, 0], [0, 0, 0]] ([[0, 1, 2], [1, 0, 2], [2, 0, 1]] ! 0) 2 0 =
            Inr [Fin 1, Fin (1 / 2)]"
    using i_vals_example by simp
  show ?thesis
    by (rule trick_halves_drift_when_all_positive [OF _ _ _ iv pos]) simp_all
qed

subsection \<open>Row sums of the empirical transition matrix\<close>





lemma upt_from_one_mem: "j \<in> set [1..<knn + 1] \<Longrightarrow> j < Suc knn \<and> 0 < j"
  by auto








































subsection \<open>Power iteration\<close>

lemma power_one_example:
  "matrix_power [[Fin (1 / 2), Fin (1 / 2)], [Fin 0, Fin 1]] 1 =
     Inr [[Fin (1 / 2), Fin (1 / 2)], [Fin 0, Fin 1]]"
proof -
  have "matrix_power [[Fin (1 / 2), Fin (1 / 2)], [Fin 0, Fin 1]] (Suc 0) =
     Inr [[Fin (1 / 2), Fin (1 / 2)], [Fin 0, Fin 1]]"
    by (simp add: is_square_def identity_def and_then_def dot_mm_def dot_vm_def ncols_def
        col_def py_sum_def upt_rec)
  then show ?thesis by simp
qed

text \<open>
  C5. With an initial distribution the code returns \<open>P0 \<cdot> M\<^sup>s\<close> for \<open>s = steps\<close>, but
  without one it averages the rows of \<^verbatim>\<open>M.dot(np.linalg.matrix_power(M, steps))\<close>, the
  power \<open>steps + 1\<close>. On the matrix with rows \<open>(1/2, 1/2)\<close> and \<open>(0, 1)\<close> and
  \<open>steps = 1\<close> the code returns \<open>(1/8, 7/8)\<close>; the average of the rows of \<open>M\<^sup>1\<close> is
  \<open>(1/4, 3/4)\<close>, which is also what the sibling path returns from the uniform initial
  distribution.
\<close>

theorem diffusion_steps_one_more_example:
  "diffusion eig [[1 / 2, 1 / 2], [0, 1]] None (Some 1) False =
     Inr (Arr1 [Fin (1 / 8), Fin (7 / 8)]) \<and>
   nanmean0 [[Fin (1 / 2), Fin (1 / 2)], [Fin 0, Fin 1]] = [Fin (1 / 4), Fin (3 / 4)] \<and>
   diffusion eig [[1 / 2, 1 / 2], [0, 1]] (Some [1 / 2, 1 / 2]) (Some 1) False =
     Inr (Arr1 [Fin (1 / 4), Fin (3 / 4)])"
proof -
  have a: "dot_mm [[Fin (1 / 2), Fin (1 / 2)], [Fin 0, Fin 1]]
             [[Fin (1 / 2), Fin (1 / 2)], [Fin 0, Fin 1]] =
           Inr [[Fin (1 / 4), Fin (3 / 4)], [Fin 0, Fin 1]]"
    by (simp add: and_then_def dot_mm_def dot_vm_def ncols_def col_def py_sum_def upt_rec)
  have b: "nanmean0 [[Fin (1 / 4), Fin (3 / 4)], [Fin 0, Fin 1]] = [Fin (1 / 8), Fin (7 / 8)]"
    by (simp add: nanmean0_def ncols_def col_def py_sum_def upt_rec)
  have c: "nanmean0 [[Fin (1 / 2), Fin (1 / 2)], [Fin 0, Fin 1]] = [Fin (1 / 4), Fin (3 / 4)]"
    by (simp add: nanmean0_def ncols_def col_def py_sum_def upt_rec)
  have d: "dot_vm [Fin (1 / 2), Fin (1 / 2)] [[Fin (1 / 2), Fin (1 / 2)], [Fin 0, Fin 1]] =
           Inr [Fin (1 / 4), Fin (3 / 4)]"
    by (simp add: dot_vm_def ncols_def col_def py_sum_def upt_rec)
  have m: "map (map Fin) [[1 / 2, 1 / 2], [0, 1]] = [[Fin (1 / 2), Fin (1 / 2)], [Fin 0, Fin 1]]"
       "map Fin [1 / 2, 1 / 2] = [Fin (1 / 2), Fin (1 / 2)]"
    by simp_all
  show ?thesis
    unfolding diffusion_def Let_def m
    by (simp only: if_False and_then_def sum.case option.case power_one_example a b c d m simp_thms)
qed

subsection \<open>The eigenvector path\<close>

lemma is_square_Fin: "is_square (map (map Fin) M) = is_square M"
  by (simp add: is_square_def list_all_iff)

lemma all_fin_Fin: "list_all (list_all is_fin) (map (map Fin) M)"
  by (simp add: list_all_iff is_fin_def)

lemma fin_val_Fin: "map (map (fin_val \<circ> Fin)) M = M"
proof -
  have "fin_val \<circ> Fin = id" by (simp add: fun_eq_iff)
  then show ?thesis by simp
qed

lemma diffusion_eig_path:
  assumes "is_square M" and "eig M = (w, vl)"
  shows "diffusion eig M None None False =
         and_then (stationary_from_eig w vl) (\<lambda>mu. Inr (Arr2 mu))"
  using assms
  by (simp add: diffusion_def Let_def and_then_def is_square_Fin all_fin_Fin fin_val_Fin)

lemma mask_select_none: "\<forall>b \<in> set keep. \<not> b \<Longrightarrow> mask_select keep row = []"
  by (auto simp: mask_select_def filter_empty_conv dest: set_zip_leftD)

text \<open>
  C3, as the code has it. No statement of the function raises: when no eigenvalue is
  within tolerance of one the boolean mask selects no column, the sum over the empty
  selection is zero, and the function returns the empty \<open>n \<times> 0\<close> array.
\<close>

theorem diffusion_without_unit_eigenvalue_returns_empty:
  assumes sq: "is_square M"
      and eg: "eig M = (w, vl)"
      and shape: "length vl = length M" "list_all (\<lambda>row. length row = length w) vl"
      and far: "\<forall>lam \<in> set w. \<not> isclose_c lam 1"
  shows "diffusion eig M None None False = Inr (Arr2 (replicate (length M) []))"
proof -
  have none: "\<forall>b \<in> set (map (\<lambda>w. isclose_c w 1) w). \<not> b" using far by auto
  have sel: "map (mask_select (map (\<lambda>w. isclose_c w 1) w)) (map (map Re) vl) =
             replicate (length M) []"
    using shape(1) by (simp add: mask_select_none[OF none] map_replicate_const o_def)
  have shp: "list_all (\<lambda>row. length row = length (map (\<lambda>w. isclose_c w 1) w)) (map (map Re) vl)"
    using shape(2) by (simp add: list_all_iff)
  have "stationary_from_eig w vl = Inr (replicate (length M) [])"
    unfolding stationary_from_eig_def Let_def sel using shp by simp
  then show ?thesis
    using diffusion_eig_path[of M eig w vl] sq eg by (simp add: and_then_def)
qed

theorem diffusion_without_unit_eigenvalue_returns_empty_witness:
  "diffusion eig_example [[2, 0], [0, 3]] None None False =
     Inr (Arr2 (replicate (length [[2, 0], [0, 3 :: real]]) []))"
proof -
  have far: "\<forall>lam \<in> set [2, 3]. \<not> isclose_c lam 1"
    by (simp add: isclose_c_def atol_def rtol_def)
  have eg: "eig_example [[2, 0], [0, 3]] = ([2, 3], [[1, 0], [0, 1]])"
    by (simp add: eig_example_def)
  have sq: "is_square [[2, 0], [0, 3 :: real]]" by (simp add: is_square_def)
  show ?thesis
    using diffusion_without_unit_eigenvalue_returns_empty
      [of "[[2, 0], [0, 3]]" eig_example "[2, 3]" "[[1, 0], [0, 1]]", OF sq eg _ _ far]
    by simp
qed

theorem diffusion_far_eigenvalues_counterexample:
  "eig_exact eig_example [[2, 0], [0, 3]] \<and>
   diffusion eig_example [[2, 0], [0, 3]] None None False = Inr (Arr2 [[], []])"
proof -
  have "eig_exact eig_example [[2, 0], [0, 3]]"
    by (simp add: eig_exact_def eig_example_def left_eigpair_def col_def upt_rec)
  moreover have "diffusion eig_example [[2, 0], [0, 3]] None None False = Inr (Arr2 [[], []])"
    by (simp add: diffusion_def is_square_def is_fin_def eig_example_def
        stationary_from_eig_def mask_select_def isclose_c_def atol_def rtol_def and_then_def)
  ultimately show ?thesis by simp
qed

text \<open>
  C7. \<^verbatim>\<open>expected_return_time(M, backward)\<close> returns an array of the shape of the
  stationary array, and at every entry where the stationary array holds a positive
  \<open>x\<close> it holds \<open>1 / x\<close>.
\<close>

theorem expected_return_time_is_reciprocal:
  assumes "diffusion eig M None None b = Inr (Arr2 mu)"
      and "i < length mu" and "j < length (mu ! i)"
      and "mu ! i ! j = Fin x" and "0 < x"
  shows "\<exists>T. expected_return_time eig M b = Inr (Arr2 T) \<and>
             length T = length mu \<and> length (T ! i) = length (mu ! i) \<and>
             T ! i ! j = Fin (1 / x)"
  using assms by (simp add: expected_return_time_def and_then_def)

lemma diffusion_swap_example:
  "diffusion eig_example [[0, 1], [1, 0]] None None b =
     Inr (Arr2 [[Fin (1 / 2)], [Fin (1 / 2)]])"
proof (cases b)
  case True
  have t: "transpose_nd [[Fin 0, Fin 1], [Fin 1, Fin 0]] = [[Fin 0, Fin 1], [Fin 1, Fin 0]]"
    by (simp add: transpose_nd_def ncols_def col_def upt_rec)
  have s: "sum_axis1 [[Fin 0, Fin 1], [Fin 1, Fin 0]] = [Fin 1, Fin 1]"
    by (simp add: sum_axis1_def py_sum_def)
  have d: "div_broadcast [[Fin 0, Fin 1], [Fin 1, Fin 0]] [Fin 1, Fin 1] =
           [[Fin 0, Fin 1], [Fin 1, Fin 0]]"
    by (simp add: div_broadcast_def)
  show ?thesis
    using True
    by (simp add: diffusion_def t s d is_square_def is_fin_def eig_example_def stationary_from_eig_def
        mask_select_def isclose_c_def isclose_def atol_def rtol_def and_then_def)
next
  case False
  then show ?thesis
    by (simp add: diffusion_def is_square_def is_fin_def eig_example_def stationary_from_eig_def
        mask_select_def isclose_c_def isclose_def atol_def rtol_def and_then_def)
qed

theorem expected_return_time_is_reciprocal_witness:
  "\<exists>T. expected_return_time eig_example [[0, 1], [1, 0]] True =
         Inr (Arr2 T) \<and>
       length T = length [[Fin (1 / 2)], [Fin (1 / 2)]] \<and>
       length (T ! 0) = length ([[Fin (1 / 2)], [Fin (1 / 2)]] ! 0) \<and>
       T ! 0 ! 0 = Fin (1 / (1 / 2))"
  by (rule expected_return_time_is_reciprocal [OF diffusion_swap_example]) simp_all

text \<open>
  C4. On an \<^verbatim>\<open>ndarray\<close> the backward branch \<^verbatim>\<open>M = M.T; M = M / M.sum(1)\<close> divides
  column \<open>j\<close> of the transpose by the sum of its row \<open>j\<close>; it does not normalise the
  rows. For \<open>P\<close> with rows \<open>(1/2, 1/2)\<close> and \<open>(1, 0)\<close> the branch works on the matrix
  with rows \<open>(1/3, 2)\<close> and \<open>(1/3, 0)\<close> and returns \<open>(1/3, 2/3)\<close>, while the
  row-normalised transpose, with rows \<open>(1/3, 2/3)\<close> and \<open>(1, 0)\<close>, has the stationary
  vector \<open>(3/5, 2/5)\<close>.
\<close>

theorem diffusion_backward_example:
  "eig_exact eig_example [[1 / 3, 2], [1 / 3, 0]] \<and>
   eig_exact eig_example [[1 / 3, 2 / 3], [1, 0]] \<and>
   diffusion eig_example [[1 / 2, 1 / 2], [1, 0]] None None True =
     Inr (Arr2 [[Fin (1 / 3)], [Fin (2 / 3)]]) \<and>
   diffusion eig_example [[1 / 3, 2 / 3], [1, 0]] None None False =
     Inr (Arr2 [[Fin (3 / 5)], [Fin (2 / 5)]])"
proof -
  have t: "transpose_nd [[Fin (1 / 2), Fin (1 / 2)], [Fin 1, Fin 0]] =
           [[Fin (1 / 2), Fin 1], [Fin (1 / 2), Fin 0]]"
    by (simp add: transpose_nd_def ncols_def col_def upt_rec)
  have s: "sum_axis1 [[Fin (1 / 2), Fin 1], [Fin (1 / 2), Fin 0]] = [Fin (3 / 2), Fin (1 / 2)]"
    by (simp add: sum_axis1_def py_sum_def)
  have d: "div_broadcast [[Fin (1 / 2), Fin 1], [Fin (1 / 2), Fin 0]] [Fin (3 / 2), Fin (1 / 2)] =
           [[Fin (1 / 3), Fin 2], [Fin (1 / 3), Fin 0]]"
    by (simp add: div_broadcast_def)
  have e1: "eig_example [[1 / 3, 2], [1 / 3, 0]] = ([1, - (2 / 3)], [[1, 1], [2, - 3]])"
    by (simp add: eig_example_def)
  have e2: "eig_example [[1 / 3, 2 / 3], [1, 0]] = ([1, - (2 / 3)], [[3, 1], [2, - 1]])"
    by (simp add: eig_example_def)
  have st1: "stationary_from_eig [1, - (2 / 3)] [[1, 1], [2, - 3]] =
             Inr [[Fin (1 / 3)], [Fin (2 / 3)]]"
    by (simp add: stationary_from_eig_def mask_select_def isclose_c_def isclose_def
        atol_def rtol_def)
  have st2: "stationary_from_eig [1, - (2 / 3)] [[3, 1], [2, - 1]] =
             Inr [[Fin (3 / 5)], [Fin (2 / 5)]]"
    by (simp add: stationary_from_eig_def mask_select_def isclose_c_def isclose_def
        atol_def rtol_def)
  have "diffusion eig_example [[1 / 2, 1 / 2], [1, 0]] None None True =
     Inr (Arr2 [[Fin (1 / 3)], [Fin (2 / 3)]])"
    by (simp add: diffusion_def t s d is_square_def is_fin_def e1 st1 and_then_def)
  moreover have "diffusion eig_example [[1 / 3, 2 / 3], [1, 0]] None None False =
     Inr (Arr2 [[Fin (3 / 5)], [Fin (2 / 5)]])"
    by (simp add: diffusion_def is_square_def is_fin_def e2 st2 and_then_def)
  moreover have "eig_exact eig_example [[1 / 3, 2], [1 / 3, 0]]"
    by (simp add: eig_exact_def eig_example_def left_eigpair_def col_def upt_rec)
  moreover have "eig_exact eig_example [[1 / 3, 2 / 3], [1, 0]]"
    by (simp add: eig_exact_def eig_example_def left_eigpair_def col_def upt_rec)
  ultimately show ?thesis by simp
qed

subsection \<open>The stationary distribution of a row-stochastic matrix\<close>

lemma sum_list_map2_nth:
  "length xs = length ys \<Longrightarrow>
   sum_list (map2 f xs ys) = (\<Sum>i<length xs. f (xs ! i) (ys ! i) :: 'a :: comm_monoid_add)"
  by (simp add: sum_list_sum_nth atLeast0LessThan)

lemma vec_mat_nth:
  assumes "length u = length P" "j < length P"
  shows "vec_mat u P ! j = (\<Sum>i<length P. u ! i * P ! i ! j)"
proof -
  have "vec_mat u P ! j = sum_list (map2 (\<lambda>x y. x * y) u (col P j))"
    using assms(2) by (simp add: vec_mat_def)
  also have "\<dots> = (\<Sum>i<length u. u ! i * col P j ! i)"
    using assms(1) by (intro sum_list_map2_nth) (simp add: col_def)
  also have "\<dots> = (\<Sum>i<length P. u ! i * P ! i ! j)"
    using assms(1) by (simp add: col_def)
  finally show ?thesis .
qed

lemma stationary_iff:
  "stationary P u \<longleftrightarrow>
     length u = length P \<and> (\<forall>j<length P. (\<Sum>i<length P. u ! i * P ! i ! j) = u ! j)"
proof
  assume st: "stationary P u"
  then have len: "length u = length P" and fx: "vec_mat u P = u" by (simp_all add: stationary_def)
  show "length u = length P \<and> (\<forall>j<length P. (\<Sum>i<length P. u ! i * P ! i ! j) = u ! j)"
    using len fx vec_mat_nth[OF len] by metis
next
  assume r: "length u = length P \<and> (\<forall>j<length P. (\<Sum>i<length P. u ! i * P ! i ! j) = u ! j)"
  then have len: "length u = length P" by simp
  have "vec_mat u P = u"
  proof (rule nth_equalityI)
    show "length (vec_mat u P) = length u" using len by (simp add: vec_mat_def)
  next
    fix j assume "j < length (vec_mat u P)"
    then have j: "j < length P" by (simp add: vec_mat_def)
    then show "vec_mat u P ! j = u ! j" using vec_mat_nth[OF len j] r by simp
  qed
  with len show "stationary P u" by (simp add: stationary_def)
qed

lemma row_stochastic_nth:
  assumes "row_stochastic P" "i < length P"
  shows "length (P ! i) = length P" "(\<Sum>j<length P. P ! i ! j) = 1"
        "\<And>j. j < length P \<Longrightarrow> 0 \<le> P ! i ! j"
proof -
  have row: "P ! i \<in> set P" using assms(2) by simp
  with assms(1) show len: "length (P ! i) = length P"
    by (auto simp: row_stochastic_def is_square_def list_all_iff)
  from row assms(1) have s: "sum_list (P ! i) = 1" and nn: "\<forall>x \<in> set (P ! i). 0 \<le> x"
    by (auto simp: row_stochastic_def list_all_iff)
  show "(\<Sum>j<length P. P ! i ! j) = 1"
    using s len by (simp add: sum_list_sum_nth atLeast0LessThan)
  show "\<And>j. j < length P \<Longrightarrow> 0 \<le> P ! i ! j"
    using nn len by simp
qed

lemma abs_stationary:
  assumes rs: "row_stochastic P" and st: "stationary P v"
  shows "stationary P (map abs v)"
proof -
  define n where "n = length P"
  have len: "length v = n" and fx: "\<And>j. j < n \<Longrightarrow> (\<Sum>i<n. v ! i * P ! i ! j) = v ! j"
    using st by (simp_all add: stationary_iff n_def)
  define g where "g j = (\<Sum>i<n. \<bar>v ! i\<bar> * P ! i ! j) - \<bar>v ! j\<bar>" for j
  have nonneg: "0 \<le> g j" if "j < n" for j
  proof -
    have "\<bar>v ! j\<bar> = \<bar>\<Sum>i<n. v ! i * P ! i ! j\<bar>" using fx[OF that] by simp
    also have "\<dots> \<le> (\<Sum>i<n. \<bar>v ! i * P ! i ! j\<bar>)" by (rule sum_abs)
    also have "\<dots> = (\<Sum>i<n. \<bar>v ! i\<bar> * P ! i ! j)"
    proof (rule sum.cong)
      fix i assume "i \<in> {..<n}"
      then have "0 \<le> P ! i ! j" using row_stochastic_nth(3)[OF rs] that by (simp add: n_def)
      then show "\<bar>v ! i * P ! i ! j\<bar> = \<bar>v ! i\<bar> * P ! i ! j" by (simp add: abs_mult)
    qed simp
    finally show ?thesis by (simp add: g_def)
  qed
  have "(\<Sum>j<n. \<Sum>i<n. \<bar>v ! i\<bar> * P ! i ! j) = (\<Sum>i<n. \<Sum>j<n. \<bar>v ! i\<bar> * P ! i ! j)"
    by (rule sum.swap)
  also have "\<dots> = (\<Sum>i<n. \<bar>v ! i\<bar> * (\<Sum>j<n. P ! i ! j))"
    by (simp add: sum_distrib_left)
  also have "\<dots> = (\<Sum>i<n. \<bar>v ! i\<bar>)"
    using row_stochastic_nth(2)[OF rs] by (simp add: n_def)
  finally have "(\<Sum>j<n. g j) = 0" by (simp add: g_def sum_subtractf)
  moreover have "\<forall>j \<in> {..<n}. 0 \<le> g j" using nonneg by simp
  ultimately have "\<forall>j \<in> {..<n}. g j = 0"
    using sum_nonneg_eq_0_iff[of "{..<n}" g] by simp
  then have zero: "g j = 0" if "j < n" for j
    using that by simp
  show ?thesis
    unfolding stationary_iff
  proof (intro conjI allI impI)
    show "length (map abs v) = length P" using len by (simp add: n_def)
  next
    fix j assume j: "j < length P"
    then have "g j = 0" using zero by (simp add: n_def)
    then show "(\<Sum>i<length P. map abs v ! i * P ! i ! j) = map abs v ! j"
      using len j by (simp add: g_def n_def)
  qed
qed

lemma re_stationary:
  assumes "left_eigpair P 1 vc"
  shows "stationary P (map Re vc)"
proof -
  have len: "length vc = length P"
    and eq: "map (\<lambda>j. sum_list (map2 (\<lambda>x row. cnj x * complex_of_real (row ! j)) vc P))
               [0..<length P] = map (\<lambda>x. 1 * cnj x) vc"
    using assms by (simp_all add: left_eigpair_def)
  have "(\<Sum>i<length P. map Re vc ! i * P ! i ! j) = map Re vc ! j" if j: "j < length P" for j
  proof -
    have "sum_list (map2 (\<lambda>x row. cnj x * complex_of_real (row ! j)) vc P) = cnj (vc ! j)"
      using arg_cong[OF eq, of "\<lambda>l. l ! j"] j len by simp
    then have "(\<Sum>i<length P. cnj (vc ! i) * complex_of_real (P ! i ! j)) = cnj (vc ! j)"
      using sum_list_map2_nth[OF len, of "\<lambda>x row. cnj x * complex_of_real (row ! j)"] len
      by simp
    then have "Re (\<Sum>i<length P. cnj (vc ! i) * complex_of_real (P ! i ! j)) = Re (vc ! j)"
      by simp
    then show ?thesis using j len by simp
  qed
  then show ?thesis using len by (simp add: stationary_iff)
qed

lemma filter_eq_index: "k < n \<Longrightarrow> filter (\<lambda>j. j = k) [0..<n] = [k]"
proof (induction n)
  case 0 then show ?case by simp
next
  case (Suc n)
  show ?case
  proof (cases "k = n")
    case True
    then have "filter (\<lambda>j. j = k) [0..<n] = []" by (simp add: filter_empty_conv)
    with True show ?thesis by simp
  next
    case False
    with Suc show ?thesis by simp
  qed
qed

lemma mask_select_index:
  "mask_select (map f [0..<length row]) row = map (\<lambda>j. row ! j) (filter f [0..<length row])"
proof -
  have "zip (map f [0..<length row]) row =
        map (\<lambda>j. (f j, row ! j)) [0..<length row]"
    by (rule nth_equalityI) simp_all
  then show ?thesis
    by (simp add: mask_select_def filter_map o_def)
qed

lemma mask_select_single:
  assumes "k < length row"
  shows "mask_select (map (\<lambda>j. j = k) [0..<length row]) row = [row ! k]"
  by (simp add: mask_select_index filter_eq_index[OF assms])

lemma stationary_from_eig_single:
  assumes shape: "length w = n" "length vl = n" "list_all (\<lambda>row. length row = n) vl"
      and k: "k < n"
      and only: "\<forall>j<n. isclose_c (w ! j) 1 \<longleftrightarrow> j = k"
  shows "stationary_from_eig w vl =
         Inr (map (\<lambda>x. [let m = fdiv (Fin x) (Fin (sum_list (map Re (col vl k))))
                         in if isclose m 0 \<and> flt m (Fin 0) then Fin 0 else m])
                (map Re (col vl k)))"
proof -
  have keep: "map (\<lambda>w. isclose_c w 1) w = map (\<lambda>j. j = k) [0..<n]"
    using shape(1) only by (intro nth_equalityI) simp_all
  have rows: "length row = n" if "row \<in> set vl" for row
    using shape(3) that by (simp add: list_all_iff)
  have sel: "map (mask_select (map (\<lambda>j. j = k) [0..<n])) (map (map Re) vl) =
             map (\<lambda>row. [Re (row ! k)]) vl"
  proof (rule nth_equalityI)
    show "length (map (mask_select (map (\<lambda>j. j = k) [0..<n])) (map (map Re) vl)) =
          length (map (\<lambda>row. [Re (row ! k)]) vl)" by simp
  next
    fix i assume "i < length (map (mask_select (map (\<lambda>j. j = k) [0..<n])) (map (map Re) vl))"
    then have i: "i < length vl" by simp
    then have l: "length (map Re (vl ! i)) = n" using rows by simp
    show "map (mask_select (map (\<lambda>j. j = k) [0..<n])) (map (map Re) vl) ! i =
          map (\<lambda>row. [Re (row ! k)]) vl ! i"
      using i k l mask_select_single[of k "map Re (vl ! i)"] by simp
  qed
  have cc: "concat (map (\<lambda>row. [Re (row ! k)]) vl) = map Re (col vl k)"
    by (induction vl) (simp_all add: col_def)
  have shp: "list_all (\<lambda>row. length row = length (map (\<lambda>j. j = k) [0..<n])) (map (map Re) vl)"
    using shape(3) by (simp add: list_all_iff)
  show ?thesis
    unfolding stationary_from_eig_def Let_def keep sel cc
    using shp by (simp add: col_def o_def)
qed

lemma upt_len_swap: "[0..<length [[0, 1], [1, 0::real]]] = [0, Suc 0]"
  by simp

lemma vec_mat_swap: "vec_mat [a, b] [[0, 1], [1, 0]] = [b, a]"
  unfolding vec_mat_def upt_len_swap by (simp add: col_def)

lemma stationary_swap: "stationary [[0, 1], [1, 0]] u \<longleftrightarrow> (\<exists>a. u = [a, a])"
proof
  assume st: "stationary [[0, 1], [1, 0]] u"
  then have "length u = Suc (Suc 0)" by (simp add: stationary_def)
  then obtain a b where u: "u = [a, b]"
    by (auto simp: length_Suc_conv)
  from st have "vec_mat u [[0, 1], [1, 0]] = u" by (simp only: stationary_def)
  then have "[b, a] = [a, b]" unfolding u vec_mat_swap .
  then have "a = b" by blast
  with u show "\<exists>a. u = [a, a]" by simp
next
  assume "\<exists>a. u = [a, a]"
  then show "stationary [[0, 1], [1, 0]] u"
    by (auto simp: stationary_def vec_mat_swap)
qed

text \<open>
  C2, as the code has it. The result of the eigenvector path is two-dimensional, with
  one column for every eigenvalue within tolerance of one. When exactly one eigenvalue
  is selected, it is one and its eigenvector is exact, and the stationary vectors of
  the row-stochastic \<open>P\<close> form a line, the single column is a probability vector
  \<open>mu\<close> with \<open>mu \<cdot> P = mu\<close>.
\<close>

theorem diffusion_stationary_distribution:
  assumes rs: "row_stochastic P"
      and ex: "eig_exact eig P" and eg: "eig P = (w, vl)"
      and k: "k < length P"
      and only: "\<forall>j<length P. isclose_c (w ! j) 1 \<longleftrightarrow> j = k"
      and one: "w ! k = 1"
      and re: "list_ex (\<lambda>x. Re x \<noteq> 0) (col vl k)"
      and uniq: "\<forall>u u'. stationary P u \<and> stationary P u' \<and> list_ex (\<lambda>x. x \<noteq> 0) u' \<longrightarrow>
                   (\<exists>c. u = map (\<lambda>x. c * x) u')"
  shows "\<exists>mu. diffusion eig P None None False = Inr (Arr2 (map (\<lambda>x. [Fin x]) mu)) \<and>
              length mu = length P \<and> sum_list mu = 1 \<and> (\<forall>x \<in> set mu. 0 \<le> x) \<and>
              vec_mat mu P = mu"
proof -
  define n where "n = length P"
  define v where "v = map Re (col vl k)"
  define s where "s = sum_list v"
  have shape: "length w = n" "length vl = n" "list_all (\<lambda>row. length row = n) vl"
    and pairs: "list_all (\<lambda>k. left_eigpair P (w ! k) (col vl k)) [0..<n]"
    using ex eg by (simp_all add: eig_exact_def n_def)
  have "left_eigpair P (w ! k) (col vl k)"
    using pairs k by (simp add: list_all_iff n_def)
  then have stv: "stationary P v"
    unfolding one v_def by (rule re_stationary)
  then have lv: "length v = n" by (simp add: stationary_def n_def)
  have nzv: "list_ex (\<lambda>x. x \<noteq> 0) v" using re by (auto simp: v_def list_ex_iff)
  have "stationary P (map abs v)" using rs stv by (rule abs_stationary)
  with stv nzv uniq obtain c where c: "map abs v = map (\<lambda>x. c * x) v" by blast
  have each: "\<bar>x\<bar> = c * x" if "x \<in> set v" for x
    using c that by (simp add: map_eq_conv)
  from nzv obtain x0 where x0: "x0 \<in> set v" "x0 \<noteq> 0" by (auto simp: list_ex_iff)
  with each[OF x0(1)] have c0: "c \<noteq> 0" by auto
  have "sum_list (map abs v) \<noteq> 0"
  proof
    assume "sum_list (map abs v) = 0"
    then have "\<forall>x \<in> set (map abs v). x = 0"
      by (subst (asm) sum_list_nonneg_eq_0_iff) auto
    with x0 show False by auto
  qed
  moreover have "0 \<le> sum_list (map abs v)" by (rule sum_list_nonneg) auto
  ultimately have apos: "0 < sum_list (map abs v)" by simp
  have as: "sum_list (map abs v) = c * s"
    unfolding c s_def by (simp add: sum_list_const_mult)
  with apos c0 have s0: "s \<noteq> 0" by auto
  define mu where "mu = map (\<lambda>x. x / s) v"
  have nn: "0 \<le> x / s" if "x \<in> set v" for x
  proof -
    have "x / s = (c * x) / (c * s)" using c0 by simp
    also have "\<dots> = \<bar>x\<bar> / sum_list (map abs v)" using each[OF that] as by simp
    finally show ?thesis using apos by simp
  qed
  have clip: "(let m = fdiv (Fin x) (Fin s)
               in if isclose m 0 \<and> flt m (Fin 0) then Fin 0 else m) = Fin (x / s)"
    if "x \<in> set v" for x
    using nn[OF that] s0 by (simp add: Let_def not_less)
  have kn: "k < n" and only': "\<forall>j<n. isclose_c (w ! j) 1 \<longleftrightarrow> j = k"
    using k only by (simp_all add: n_def)
  have "stationary_from_eig w vl =
        Inr (map (\<lambda>x. [let m = fdiv (Fin x) (Fin s)
                        in if isclose m 0 \<and> flt m (Fin 0) then Fin 0 else m]) v)"
    unfolding v_def s_def by (rule stationary_from_eig_single[OF shape kn only'])
  also have "map (\<lambda>x. [let m = fdiv (Fin x) (Fin s)
                        in if isclose m 0 \<and> flt m (Fin 0) then Fin 0 else m]) v =
             map (\<lambda>x. [Fin (x / s)]) v"
    by (rule map_cong) (simp_all only: clip)
  finally have "stationary_from_eig w vl = Inr (map (\<lambda>x. [Fin (x / s)]) v)" .
  then have run: "diffusion eig P None None False = Inr (Arr2 (map (\<lambda>x. [Fin x]) mu))"
    using diffusion_eig_path[of P eig w vl] rs eg
    by (simp add: row_stochastic_def and_then_def mu_def o_def)
  have sum1: "sum_list mu = 1"
    using s0 by (simp add: mu_def sum_list_div_real s_def[symmetric])
  have fixv: "\<And>j. j < n \<Longrightarrow> (\<Sum>i<n. v ! i * P ! i ! j) = v ! j"
    using stv by (simp add: stationary_iff n_def)
  have "stationary P mu"
    unfolding stationary_iff
  proof (intro conjI allI impI)
    show "length mu = length P" using lv by (simp add: mu_def n_def)
  next
    fix j assume j: "j < length P"
    have "(\<Sum>i<length P. mu ! i * P ! i ! j) = (\<Sum>i<n. v ! i * P ! i ! j) / s"
      using lv by (simp add: mu_def n_def sum_divide_distrib)
    also have "\<dots> = mu ! j" using fixv[of j] j lv by (simp add: mu_def n_def)
    finally show "(\<Sum>i<length P. mu ! i * P ! i ! j) = mu ! j" .
  qed
  then have "vec_mat mu P = mu" "length mu = length P" by (simp_all add: stationary_def)
  moreover have "\<forall>x \<in> set mu. 0 \<le> x" using nn by (auto simp: mu_def)
  ultimately show ?thesis using run sum1 by blast
qed

theorem diffusion_stationary_distribution_witness:
  "\<exists>mu. diffusion eig_example [[0, 1], [1, 0]] None None False =
          Inr (Arr2 (map (\<lambda>x. [Fin x]) mu)) \<and>
        length mu = length [[0, 1], [1, 0 :: real]] \<and> sum_list mu = 1 \<and>
        (\<forall>x \<in> set mu. 0 \<le> x) \<and> vec_mat mu [[0, 1], [1, 0]] = mu"
proof -
  let ?P = "[[0, 1], [1, 0 :: real]]"
  have rs: "row_stochastic ?P" by (simp add: row_stochastic_def is_square_def)
  have ex: "eig_exact eig_example ?P"
    by (simp add: eig_exact_def eig_example_def left_eigpair_def col_def upt_rec)
  have eg: "eig_example ?P = ([1, - 1], [[1, 1], [1, - 1]])" by (simp add: eig_example_def)
  have k: "0 < length ?P" by simp
  have only: "\<forall>j<length ?P. isclose_c ([1, - 1] ! j) 1 \<longleftrightarrow> j = 0"
    by (simp add: isclose_c_def atol_def rtol_def less_Suc_eq nth_Cons')
  have one: "[1, - 1 :: complex] ! 0 = 1" by simp
  have re: "list_ex (\<lambda>x. Re x \<noteq> 0) (col [[1, 1], [1, - 1]] 0)" by (simp add: col_def)
  have uniq: "\<forall>u u'. stationary ?P u \<and> stationary ?P u' \<and> list_ex (\<lambda>x. x \<noteq> 0) u' \<longrightarrow>
                   (\<exists>c. u = map (\<lambda>x. c * x) u')"
  proof (intro allI impI)
    fix u u' :: "real list"
    assume h: "stationary ?P u \<and> stationary ?P u' \<and> list_ex (\<lambda>x. x \<noteq> 0) u'"
    then obtain a b where ab: "u = [a, a]" "u' = [b, b]" by (auto simp: stationary_swap)
    with h have "b \<noteq> 0" by simp
    then have "u = map (\<lambda>x. (a / b) * x) u'" using ab by simp
    then show "\<exists>c. u = map (\<lambda>x. c * x) u'" ..
  qed
  show ?thesis
    by (rule diffusion_stationary_distribution [OF rs ex eg k only one re uniq])
qed

theorem diffusion_identity_counterexample:
  "row_stochastic [[1, 0], [0, 1]] \<and> eig_exact eig_example [[1, 0], [0, 1]] \<and>
   diffusion eig_example [[1, 0], [0, 1]] None None False =
     Inr (Arr2 [[Fin (1 / 2), Fin 0], [Fin 0, Fin (1 / 2)]])"
proof -
  have "row_stochastic [[1, 0], [0, 1]]" by (simp add: row_stochastic_def is_square_def)
  moreover have "eig_exact eig_example [[1, 0], [0, 1]]"
    by (simp add: eig_exact_def eig_example_def left_eigpair_def col_def upt_rec)
  moreover have "diffusion eig_example [[1, 0], [0, 1]] None None False =
     Inr (Arr2 [[Fin (1 / 2), Fin 0], [Fin 0, Fin (1 / 2)]])"
    by (simp add: diffusion_def is_square_def is_fin_def eig_example_def stationary_from_eig_def
        mask_select_def isclose_c_def isclose_def atol_def rtol_def and_then_def)
  ultimately show ?thesis by simp
qed

subsection \<open>The random control\<close>

lemma shuffled_row_mset:
  assumes "mset perm = mset [0..<length row]"
  shows "mset (map (\<lambda>p. row ! p) perm) = mset row"
proof -
  have "mset (map (\<lambda>p. row ! p) perm) = image_mset (\<lambda>p. row ! p) (mset perm)" by simp
  also have "\<dots> = image_mset (\<lambda>p. row ! p) (mset [0..<length row])" using assms by simp
  also have "\<dots> = mset (map (\<lambda>p. row ! p) [0..<length row])" by simp
  also have "\<dots> = mset row" by (simp only: map_nth)
  finally show ?thesis .
qed

lemma signed_row_abs:
  "length picks = length xs \<Longrightarrow>
   map abs (map2 (\<lambda>x pick. x * plmi pick) xs picks) = map abs xs"
proof (induction xs picks rule: list_induct2')
  case (4 x xs p ps)
  then show ?case by (simp add: plmi_def abs_mult)
qed simp_all

lemma permute_rows_abs:
  assumes ok: "rng_ok ops"
  shows "list_all (\<lambda>row. length row = c) A \<Longrightarrow>
         map (\<lambda>row. mset (map abs row)) (fst (permute_rows ops c A g)) =
         map (\<lambda>row. mset (map abs row)) A"
proof (induction A arbitrary: g)
  case Nil
  then show ?case by simp
next
  case (Cons row rest)
  obtain perm g1 where sh: "rng_shuffle ops g (length row) = (perm, g1)" by fastforce
  obtain picks g2 where ch: "rng_choice ops g1 c = (picks, g2)" by fastforce
  obtain rest' g3 where rc: "permute_rows ops c rest g2 = (rest', g3)" by fastforce
  have perm: "mset perm = mset [0..<length row]"
    using ok sh unfolding rng_ok_def by (metis fst_conv)
  have lp: "length perm = length row"
    using arg_cong[OF perm, of size] by simp
  have picks: "length picks = c"
    using ok ch unfolding rng_ok_def by (metis fst_conv)
  have lr: "length row = c" and rest: "list_all (\<lambda>row. length row = c) rest"
    using Cons.prems by simp_all
  have "mset (map abs (map2 (\<lambda>x pick. x * plmi pick) (map (\<lambda>p. row ! p) perm) picks)) =
        mset (map abs (map (\<lambda>p. row ! p) perm))"
    using signed_row_abs[of picks "map (\<lambda>p. row ! p) perm"] picks lp lr by simp
  also have "\<dots> = image_mset abs (mset (map (\<lambda>p. row ! p) perm))"
    by (simp only: mset_map)
  also have "\<dots> = image_mset abs (mset row)" by (simp only: shuffled_row_mset[OF perm])
  also have "\<dots> = mset (map abs row)" by (simp only: mset_map)
  finally have hd: "mset (map abs (map2 (\<lambda>x pick. x * plmi pick) (map (\<lambda>p. row ! p) perm) picks)) =
        mset (map abs row)" .
  have tl: "map (\<lambda>row. mset (map abs row)) rest' = map (\<lambda>row. mset (map abs row)) rest"
    using Cons.IH[OF rest, of g2] rc by simp
  show ?case
    by (simp only: permute_rows.simps sh ch rc prod.case fst_conv list.map hd tl)
qed

lemma rng_example_ok: "rng_ok rng_example"
  by (simp add: rng_ok_def rng_example_def)

text \<open>
  C8. With a generator that keeps numpy's promises, \<^verbatim>\<open>permute_rows_nsign\<close> leaves
  the multiset of the absolute values of every row of a matrix as it was, whatever the
  state of the generator; and after \<^verbatim>\<open>numba_random_seed(seed)\<close> the result depends on
  the seed alone, not on the state the generator was in before.
\<close>

theorem permute_rows_nsign_preserves_abs:
  assumes "rng_ok ops" and "list_all (\<lambda>row. length row = ncols A) A"
  shows "map (\<lambda>row. mset (map abs row)) (fst (permute_rows_nsign ops A g)) =
           map (\<lambda>row. mset (map abs row)) A \<and>
         permute_rows_nsign ops A (numba_random_seed ops seed g1) =
           permute_rows_nsign ops A (numba_random_seed ops seed g2)"
  using permute_rows_abs[OF assms(1), of "ncols A" A g] assms(2)
  by (simp add: permute_rows_nsign_def numba_random_seed_def)

theorem permute_rows_nsign_preserves_abs_witness:
  "map (\<lambda>row. mset (map abs row)) (fst (permute_rows_nsign rng_example [[1, - 2, 3], [4, 5, - 6]] 0)) =
     map (\<lambda>row. mset (map abs row)) [[1, - 2, 3], [4, 5, - 6]] \<and>
   permute_rows_nsign rng_example [[1, - 2, 3], [4, 5, - 6]]
       (numba_random_seed rng_example 19491001 0) =
     permute_rows_nsign rng_example [[1, - 2, 3], [4, 5, - 6]]
       (numba_random_seed rng_example 19491001 7)"
proof -
  have rect: "list_all (\<lambda>row. length row = ncols [[1, - 2, 3], [4, 5, - 6 :: real]])
                [[1, - 2, 3], [4, 5, - 6]]"
    by (simp add: ncols_def)
  show ?thesis
    by (rule permute_rows_nsign_preserves_abs [OF rng_example_ok rect])
qed

subsection \<open>The orchestrator\<close>

text \<open>
  With \<^verbatim>\<open>method='empirical'\<close> the matrix returned by the kernel is what the
  orchestrator stores under \<^verbatim>\<open>'transition_matrix'\<close>.
\<close>

lemma cell_velocities_empirical_stores:
  assumes "co_resolve_keys co adata = None"
      and "co_prepare co adata = (adata1, Inr inp)"
      and "inp_graph inp = Some (ind, shape)"
      and "empirical_vec (co_corrcoef co) (co_velocity_on_grid co) (inp_X inp)
             (inp_X_embedding inp) (inp_V_mat inp) (Some ind) neg_cells_trick shape =
           Inr (T, delta_X, grid)"
  shows "cell_velocities co adata g basis ''empirical'' neg_cells_trick False random_seed =
           (store_results basis (T, delta_X, grid) None adata1, g, None) \<and>
         uns (store_results basis (T, delta_X, grid) None adata1) ''transition_matrix'' =
           Some (Matrix T)"
  using assms by (simp add: cell_velocities_def store_results_def store_out_def)

text \<open>
  C9, as the code has it. The method name is not checked at entry. With a name that
  is none of the three, the keys are resolved and the inputs prepared as for any call,
  the \<^verbatim>\<open>if\<close>/\<^verbatim>\<open>elif\<close> chain binds nothing, and the call ends at the first store,
  \<^verbatim>\<open>adata.uns['transition_matrix'] = T\<close>, with Python's UnboundLocalError for \<open>T\<close>. No
  result key has been written then: the container is as the preparation left it.
\<close>

theorem unknown_method_fails_at_store:
  assumes "method \<noteq> ''analytical''" and "method \<noteq> ''empirical''" and "method \<noteq> ''transform''"
      and "co_resolve_keys co adata = None"
      and "co_prepare co adata = (adata1, Inr inp)"
  shows "cell_velocities co adata g basis method neg_cells_trick calc_rnd_vel random_seed =
           (adata1,
            (if calc_rnd_vel then numba_random_seed (co_rng co) random_seed g else g),
            Some (UnboundLocalError ''T''))"
  using assms by (simp add: cell_velocities_def)

theorem unknown_method_fails_at_store_witness:
  "cell_velocities co_example adata_example 0 ''umap'' ''correlation'' False True 19491001 =
     (adata_example\<lparr>obsm := (obsm adata_example)(''X_umap'' \<mapsto> Other ''embedding'')\<rparr>,
      (if True then numba_random_seed (co_rng co_example) 19491001 0 else 0),
      Some (UnboundLocalError ''T''))"
proof -
  have r: "co_resolve_keys co_example adata_example = None"
    by (simp add: co_example_def)
  have p: "co_prepare co_example adata_example =
           (adata_example\<lparr>obsm := (obsm adata_example)(''X_umap'' \<mapsto> Other ''embedding'')\<rparr>,
            Inr inputs_example)"
    by (simp add: co_example_def)
  show ?thesis
    by (rule unknown_method_fails_at_store [OF _ _ _ r p]) simp_all
qed

theorem unknown_method_counterexample:
  "cell_velocities co_example adata_example 0 ''umap'' ''foo'' False False 19491001 =
     (adata_example\<lparr>obsm := (obsm adata_example)(''X_umap'' \<mapsto> Other ''embedding'')\<rparr>,
      0, Some (UnboundLocalError ''T''))"
  by (simp add: cell_velocities_def co_example_def)

end
